theory Spec2Isabelle
  imports Main "HOL-Library.Word"
begin

section \<open>rpasm: tokens, tables and Python strings\<close>

text \<open>
  A shallow embedding of \<^verbatim>\<open>rpasm.py\<close>. A Python \<^verbatim>\<open>str\<close> is modelled as a
  \<^typ>\<open>string\<close>; a \<^typ>\<open>char\<close> stands for the code point of the same number
  (U+0000 to U+00FF), which is what \<^verbatim>\<open>ord\<close> returns. Python integers are
  unbounded and are modelled by \<^typ>\<open>int\<close>. The interpreter's configurable limit on the
  length of a conversion between an integer and its decimal text is not part of the model.
\<close>

datatype error = Exception string | IndexError | ValueError

text \<open>The type \<^verbatim>\<open>str | int\<close> of a token's payload and of a function argument.\<close>

datatype pyval = IntV int | StrV string

fun is_str :: "pyval \<Rightarrow> bool" where
  "is_str (StrV s) = True"
| "is_str (IntV i) = False"

fun is_int :: "pyval \<Rightarrow> bool" where
  "is_int (IntV i) = True"
| "is_int (StrV s) = False"

fun the_str :: "pyval \<Rightarrow> string" where
  "the_str (StrV s) = s"
| "the_str (IntV i) = []"

fun the_int :: "pyval \<Rightarrow> int" where
  "the_int (IntV i) = i"
| "the_int (StrV s) = 0"

text \<open>
  The three token classes. \<^verbatim>\<open>ValueToken.prefix\<close> has type \<^verbatim>\<open>str | None\<close>.
\<close>

datatype token =
    FunctionToken string "pyval list"
  | ValueToken "string option" pyval
  | StringToken string

definition PREFIXES :: "string list" where
  "PREFIXES = [''$'', ''@'', ''?'', '':'', ''#'', ''.'']"

definition TYPES :: "(string \<times> string) list" where
  "TYPES = [(''byte'', ''b''), (''word'', ''w''), (''dword'', ''d''), (''qword'', ''q'')]"

definition RDI_BY_SIZE :: "(string \<times> string) list" where
  "RDI_BY_SIZE = [(''byte'', ''dil''), (''word'', ''di''), (''dword'', ''edi''), (''qword'', ''rdi'')]"

definition CONDITIONAL_OPERATORS :: "(string \<times> string) list" where
  "CONDITIONAL_OPERATORS = [(''=='', ''e''), (''!='', ''ne'')]"

definition SIMPLE_BINARY_OPERATORS :: "(string \<times> string) list" where
  "SIMPLE_BINARY_OPERATORS = [(''+'', ''add''), (''-'', ''sub'')]"

definition CALL_ARG_REGS :: "string list" where
  "CALL_ARG_REGS = [''rdi'', ''rsi'', ''rdx'', ''rcx'', ''r8'', ''r9'']"

definition SYSCALL_ARG_REGS :: "string list" where
  "SYSCALL_ARG_REGS = [''rax'', ''rdi'', ''rsi'', ''rdx'', ''r10'', ''r8'', ''r9'']"

text \<open>
  The list \<^verbatim>\<open>FUNCTIONS\<close> of the source is read nowhere in the program and has no
  counterpart here. \<^verbatim>\<open>key in d\<close> and \<^verbatim>\<open>d[key]\<close> for a dictionary with string keys:
\<close>

definition in_dict :: "string \<Rightarrow> (string \<times> string) list \<Rightarrow> bool" where
  "in_dict k d = (map_of d k \<noteq> None)"

definition lookup :: "(string \<times> string) list \<Rightarrow> string \<Rightarrow> string" where
  "lookup d k = (case map_of d k of Some v \<Rightarrow> v | None \<Rightarrow> [])"

subsection \<open>Decimal text of integers\<close>

text \<open>\<^verbatim>\<open>str(n)\<close> and \<^verbatim>\<open>"%i" % n\<close>: decimal digits, a minus sign when negative.\<close>

definition digit_char :: "nat \<Rightarrow> char" where
  "digit_char d = char_of (48 + d)"

fun str_nat :: "nat \<Rightarrow> string" where
  "str_nat n = (if n < 10 then [digit_char n] else str_nat (n div 10) @ [digit_char (n mod 10)])"

declare str_nat.simps [simp del]

definition str_int :: "int \<Rightarrow> string" where
  "str_int i = (if i < 0 then ''-'' @ str_nat (nat (- i)) else str_nat (nat i))"

fun str_val :: "pyval \<Rightarrow> string" where
  "str_val (IntV i) = str_int i"
| "str_val (StrV s) = s"

text \<open>\<^verbatim>\<open>sep.join(xs)\<close>.\<close>

fun join :: "string \<Rightarrow> string list \<Rightarrow> string" where
  "join sep [] = []"
| "join sep [x] = x"
| "join sep (x # y # ys) = x @ sep @ join sep (y # ys)"

definition endswith :: "string \<Rightarrow> string \<Rightarrow> bool" where
  "endswith s t = (length t \<le> length s \<and> drop (length s - length t) s = t)"

subsection \<open>String data\<close>

text \<open>
  \<^verbatim>\<open>asm_str\<close>: the loop over the characters of \<^verbatim>\<open>val\<close>, with the text built so
  far as accumulator; the separator is added whenever the text is no longer \<^verbatim>\<open>"db "\<close>.
\<close>

fun asm_str_loop :: "string \<Rightarrow> string \<Rightarrow> string" where
  "asm_str_loop acc [] = acc"
| "asm_str_loop acc (c # cs) =
     asm_str_loop ((if acc \<noteq> ''db '' then acc @ '', '' else acc) @ str_nat (of_char c)) cs"

definition asm_str :: "string \<Rightarrow> string" where
  "asm_str val =
     asm_str_loop ''db '' (if \<not> endswith val [CHR 0x00] then val @ [CHR 0x00] else val)"

section \<open>The compiler\<close>

text \<open>
  \<^verbatim>\<open>Compiler.compile\<close> is a generator: the lines a token yields before an exception is
  raised have already been handed to the consumer. The result for one token is therefore
  the list of lines yielded together with the exception that ended the generator, if any.
\<close>

type_synonym emitted = "string list \<times> error option"

text \<open>
  \<^verbatim>\<open>for i in idxs: yield fmt % (regs[i])\<close>, with Python's \<^verbatim>\<open>IndexError\<close> for an index
  beyond the list (the indices of a \<^verbatim>\<open>range\<close> are never negative).
\<close>

fun yield_regs :: "string \<Rightarrow> string list \<Rightarrow> nat list \<Rightarrow> emitted" where
  "yield_regs fmt regs [] = ([], None)"
| "yield_regs fmt regs (i # idxs) =
     (if i < length regs
      then (case yield_regs fmt regs idxs of (ls, e) \<Rightarrow> ((fmt @ regs ! i) # ls, e))
      else ([], Some IndexError))"

text \<open>\<^verbatim>\<open>range(n)\<close> as a list; it is empty for \<^verbatim>\<open>n <= 0\<close>.\<close>

definition py_range :: "int \<Rightarrow> nat list" where
  "py_range n = [0 ..< nat n]"

text \<open>Continue with the statements after a loop unless the loop raised.\<close>

definition and_then :: "emitted \<Rightarrow> string list \<Rightarrow> emitted" where
  "and_then r later = (case r of (ls, None) \<Rightarrow> (ls @ later, None) | (ls, Some e) \<Rightarrow> (ls, Some e))"

text \<open>
  The branches for a function token, in the order of the source. Python's \<^verbatim>\<open>and\<close>
  reads \<^verbatim>\<open>tk.args[i]\<close> only when the test of the length has succeeded; here the
  conjunction is false already when that test fails. \<^verbatim>\<open>tk.args[0] in TYPES\<close> is false
  for an integer, which is no key of the dictionary. \<^const>\<open>the_str\<close> and \<^const>\<open>the_int\<close>
  are applied only to values that passed \<^const>\<open>is_str\<close> and \<^const>\<open>is_int\<close>.
\<close>

definition compile_function :: "string \<Rightarrow> pyval list \<Rightarrow> emitted" where
  "compile_function name args =
    (if name = ''global'' \<and> length args = 1 \<and> is_str (args ! 0) then
       ([''global '' @ the_str (args ! 0)], None)
     else if name = ''data'' \<and> length args \<ge> 2 \<and> is_str (args ! 0)
             \<and> in_dict (the_str (args ! 0)) TYPES \<and> list_all is_int (drop 1 args) then
       ([''d'' @ lookup TYPES (the_str (args ! 0)) @ '' ''
           @ join '', '' (map str_val (drop 1 args))], None)
     else if name = ''call'' \<and> length args = 2 \<and> is_str (args ! 0) \<and> is_int (args ! 1) then
       and_then (yield_regs ''pop '' CALL_ARG_REGS (rev (py_range (the_int (args ! 1)))))
         [''call '' @ the_str (args ! 0), ''push rax'']
     else if name = ''syscall'' \<and> length args = 1 \<and> is_int (args ! 0) then
       and_then (yield_regs ''pop '' SYSCALL_ARG_REGS (rev (py_range (the_int (args ! 0)))))
         [''syscall'', ''push rax'']
     else if name = ''jmp'' \<and> length args = 1 \<and> is_str (args ! 0) then
       ([''jmp '' @ the_str (args ! 0)], None)
     else if name = ''jmpif'' \<and> length args = 1 \<and> is_str (args ! 0) then
       ([''pop rax'', ''test rax, rax'', ''jnz '' @ the_str (args ! 0)], None)
     else if name = ''return'' \<and> length args = 0 then
       ([''pop rax'', ''ret''], None)
     else if name = ''args'' \<and> length args = 1 \<and> is_int (args ! 0) then
       yield_regs ''push '' CALL_ARG_REGS (py_range (the_int (args ! 0)))
     else ([], Some (Exception ''invalid function'')))"

definition compile_str_value :: "string option \<Rightarrow> string \<Rightarrow> emitted" where
  "compile_str_value prefix v =
    (if prefix = Some ''#'' \<and> in_dict v TYPES then
       ([''pop rax'', ''xor rdi, rdi'',
         ''mov '' @ lookup RDI_BY_SIZE v @ '', '' @ v @ '' [rax]'', ''push rdi''], None)
     else if prefix = Some ''.'' then ([''section '' @ v], None)
     else if prefix = Some '':'' then ([v @ '':''], None)
     else if prefix = Some ''$'' then ([''mov rax, '' @ v, ''push rax''], None)
     else if prefix = None \<and> in_dict v CONDITIONAL_OPERATORS then
       ([''pop rax'', ''pop rdi'', ''xor rsi, rsi'', ''cmp rax, rdi'',
         ''set'' @ lookup CONDITIONAL_OPERATORS v @ '' sil'', ''push rsi''], None)
     else if prefix = None \<and> in_dict v SIMPLE_BINARY_OPERATORS then
       ([''pop rax'', ''pop rdi'', lookup SIMPLE_BINARY_OPERATORS v @ '' rax, rdi'',
         ''push rax''], None)
     else ([], Some (Exception ''invalid string value'')))"

definition compile_int_value :: "string option \<Rightarrow> int \<Rightarrow> emitted" where
  "compile_int_value prefix v =
    (if prefix = None then ([''push '' @ str_int v], None)
     else if prefix = Some ''$'' then
       ([''mov rax, [rsp + '' @ str_int (v * 8) @ '']'', ''push rax''], None)
     else if prefix = Some ''@'' then
       ([''mov rax, rsp'', ''add rax, '' @ str_int (v * 8), ''push rax''], None)
     else if prefix = Some ''?'' then ([''add rsp, '' @ str_int (v * 8)], None)
     else if prefix = Some '':'' then
       ([''mov rax, [rsp]'', ''mov rdi, [rsp + '' @ str_int (v * 8) @ '']'',
         ''mov [rsp], rdi'', ''mov [rsp + '' @ str_int (v * 8) @ ''], rax''], None)
     else ([], Some (Exception ''invalid integer value'')))"

text \<open>
  The body of the \<^verbatim>\<open>for\<close> loop of \<^verbatim>\<open>Compiler.compile\<close> for one token. The branch
  \<^verbatim>\<open>raise Exception("invalid token")\<close> is for objects that are none of the three token
  classes with a \<^verbatim>\<open>str\<close> or \<^verbatim>\<open>int\<close> payload; \<^typ>\<open>token\<close> has no such value.
\<close>

fun compile_token :: "token \<Rightarrow> emitted" where
  "compile_token (StringToken s) = ([asm_str s], None)"
| "compile_token (FunctionToken name args) = compile_function name args"
| "compile_token (ValueToken prefix (StrV v)) = compile_str_value prefix v"
| "compile_token (ValueToken prefix (IntV v)) = compile_int_value prefix v"

text \<open>The loop over the token stream: the first exception ends the generator.\<close>

fun compile :: "token list \<Rightarrow> emitted" where
  "compile [] = ([], None)"
| "compile (tk # tks) =
     (case compile_token tk of
        (ls, Some e) \<Rightarrow> (ls, Some e)
      | (ls, None) \<Rightarrow> (case compile tks of (ls', e) \<Rightarrow> (ls @ ls', e)))"

text \<open>
  The specification calls the exceptions that the generator raises for a token it has no
  rule for \<^emph>\<open>InvalidConstructError\<close>; the source raises \<^verbatim>\<open>Exception\<close> with one of four
  messages.
\<close>

definition InvalidConstructError :: "error \<Rightarrow> bool" where
  "InvalidConstructError e =
     (e \<in> set [Exception ''invalid function'', Exception ''invalid string value'',
               Exception ''invalid integer value'', Exception ''invalid token''])"

section \<open>The scanner\<close>

text \<open>
  \<^verbatim>\<open>str.isspace\<close> and \<^verbatim>\<open>str.isdigit\<close> on one character, for the code points below 256.
  Python's \<^verbatim>\<open>isdigit\<close> is true for the decimal digits and also for the superscript
  digits U+00B2, U+00B3 and U+00B9; \<^verbatim>\<open>int\<close> accepts only the decimal digits among them.
\<close>

definition isspace :: "char \<Rightarrow> bool" where
  "isspace c = (of_char c \<in> set [9, 10, 11, 12, 13, 28, 29, 30, 31, 32, 133, 160 :: nat])"

definition is_decimal :: "char \<Rightarrow> bool" where
  "is_decimal c = (48 \<le> (of_char c :: nat) \<and> (of_char c :: nat) \<le> 57)"

definition is_digit :: "char \<Rightarrow> bool" where
  "is_digit c = (is_decimal c \<or> of_char c \<in> set [178, 179, 185 :: nat])"

text \<open>\<^verbatim>\<open>s.isdigit()\<close>: at least one character, and all of them digits.\<close>

definition isdigit :: "string \<Rightarrow> bool" where
  "isdigit s = (s \<noteq> [] \<and> list_all is_digit s)"

definition decimal_value :: "string \<Rightarrow> int" where
  "decimal_value s = foldl (\<lambda>a c. 10 * a + (int (of_char c) - 48)) 0 s"

text \<open>
  \<^verbatim>\<open>int(value) if value.isdigit() else value\<close>, as written for a bare payload and, in
  two statements, for a function argument. On a text that passes \<^verbatim>\<open>isdigit\<close>,
  \<^verbatim>\<open>int\<close> returns the decimal value when every character is a decimal digit and raises
  \<^verbatim>\<open>ValueError\<close> otherwise.
\<close>

definition classify :: "string \<Rightarrow> error + pyval" where
  "classify s =
     (if isdigit s
      then (if list_all is_decimal s then Inr (IntV (decimal_value s)) else Inl ValueError)
      else Inr (StrV s))"

text \<open>
  The state of the scanner is the text that is not consumed yet: its first character is
  \<^verbatim>\<open>self._c\<close>, the empty text is \<^verbatim>\<open>self._c == ""\<close> at the end of the input, and
  \<^verbatim>\<open>self._next()\<close> drops one character. The inner loops that copy characters while a
  condition holds are \<^const>\<open>takeWhile\<close> and \<^const>\<open>dropWhile\<close>.
\<close>

definition arg_char :: "char \<Rightarrow> bool" where
  "arg_char c = (c \<noteq> CHR '','' \<and> c \<noteq> CHR '')'')"

definition value_char :: "char \<Rightarrow> bool" where
  "value_char c = (\<not> isspace c \<and> c \<noteq> CHR ''('')"

text \<open>
  The loop \<^verbatim>\<open>while True\<close> over the arguments of a function. It is left only by the
  \<^verbatim>\<open>break\<close> at a closing parenthesis or by an exception, so it need not return:
  \<^const>\<open>None\<close> is the run that never ends. A result \<open>Inl e\<close> is the exception \<open>e\<close>,
  a result \<open>Inr (args, cs)\<close> the arguments and the text left at the \<^verbatim>\<open>break\<close>.
\<close>

partial_function (option) scan_args ::
  "string \<Rightarrow> pyval list \<Rightarrow> (error + pyval list \<times> string) option" where
  "scan_args cs args =
     (let cs1 = dropWhile isspace cs in
      if take 1 cs1 = '')'' then Some (Inr (args, cs1))
      else
        let arg = takeWhile arg_char cs1;
            cs2 = dropWhile arg_char cs1;
            cs3 = (if take 1 cs2 = '','' then drop 1 cs2 else cs2)
        in (case classify arg of
              Inl e \<Rightarrow> Some (Inl e)
            | Inr v \<Rightarrow> scan_args cs3 (args @ [v])))"

declare scan_args.simps [code]

text \<open>
  \<^verbatim>\<open>Scanner.scan\<close>. The result \<open>Some (tks, e)\<close> is the list of the tokens yielded and
  the exception that ended the generator, if any; \<^const>\<open>None\<close> is a run that never ends.
\<close>

type_synonym scanned = "(token list \<times> error option) option"

partial_function (option) scan_loop :: "string \<Rightarrow> scanned" where
  "scan_loop cs =
     (if cs = [] then Some ([], None)
      else if isspace (hd cs) then scan_loop (tl cs)
      else if hd cs = CHR '';'' then
        scan_loop (drop 1 (dropWhile (\<lambda>c. c \<noteq> CHR 0x0A) cs))
      else if hd cs = CHR 0x22 then
        (let v = takeWhile (\<lambda>c. c \<noteq> CHR 0x22) (tl cs);
             cs1 = dropWhile (\<lambda>c. c \<noteq> CHR 0x22) (tl cs)
         in if cs1 = [] then Some ([], Some (Exception ''unclosed string''))
            else Option.bind (scan_loop (tl cs1)) (\<lambda>(tks, e). Some (StringToken v # tks, e)))
      else
        (let prefix = (if [hd cs] \<in> set PREFIXES then Some [hd cs] else None);
             cs1 = (if [hd cs] \<in> set PREFIXES then tl cs else cs);
             v = takeWhile value_char cs1;
             cs2 = dropWhile value_char cs1
         in if take 1 cs2 \<noteq> ''('' then
              (case classify v of
                 Inl e \<Rightarrow> Some ([], Some e)
               | Inr pv \<Rightarrow>
                   Option.bind (scan_loop cs2) (\<lambda>(tks, e). Some (ValueToken prefix pv # tks, e)))
            else if prefix \<noteq> None then
              Some ([], Some (Exception ''functions cannot be prefixed''))
            else
              (case scan_args (tl cs2) [] of
                 None \<Rightarrow> None
               | Some (Inl e) \<Rightarrow> Some ([], Some e)
               | Some (Inr (args, cs3)) \<Rightarrow>
                   if cs3 = [] then Some ([], Some (Exception ''unclosed function''))
                   else Option.bind (scan_loop (tl cs3))
                          (\<lambda>(tks, e). Some (FunctionToken v args # tks, e)))))"

declare scan_loop.simps [code]

definition scan :: "string \<Rightarrow> scanned" where
  "scan input = scan_loop input"

section \<open>The generation rules of the specification\<close>

text \<open>
  The rule tables of the specification (section 4.2), read as a predicate on tokens: a
  token matches a rule when its shape is in one of the rows. An identifier is any string
  payload, an integer any integer payload.
\<close>

definition width_names :: "string list" where
  "width_names = [''byte'', ''word'', ''dword'', ''qword'']"

fun spec_function_rule :: "string \<Rightarrow> pyval list \<Rightarrow> bool" where
  "spec_function_rule name [] = (name = ''return'')"
| "spec_function_rule name [StrV s] = (name \<in> set [''global'', ''jmp'', ''jmpif''])"
| "spec_function_rule name [IntV n] = (name \<in> set [''syscall'', ''args''])"
| "spec_function_rule name (StrV s # v # vs) =
     (name = ''data'' \<and> s \<in> set width_names \<and> list_all is_int (v # vs)
      \<or> name = ''call'' \<and> is_int v \<and> vs = [])"
| "spec_function_rule name (IntV n # v # vs) = False"

fun spec_value_rule :: "string option \<Rightarrow> pyval \<Rightarrow> bool" where
  "spec_value_rule None (IntV n) = True"
| "spec_value_rule None (StrV s) = (s \<in> set [''=='', ''!='', ''+'', ''-''])"
| "spec_value_rule (Some p) (IntV n) = (p \<in> set [''$'', ''@'', ''?'', '':''])"
| "spec_value_rule (Some p) (StrV s) =
     (p \<in> set [''$'', '':'', ''.''] \<or> p = ''#'' \<and> s \<in> set width_names)"

fun spec_matches_rule :: "token \<Rightarrow> bool" where
  "spec_matches_rule (StringToken s) = True"
| "spec_matches_rule (ValueToken prefix v) = spec_value_rule prefix v"
| "spec_matches_rule (FunctionToken name args) = spec_function_rule name args"

section \<open>The meaning of the emitted instructions\<close>

text \<open>
  The emitted text is input for an assembler for x86-64 in Intel operand order
  (destination first). To state what the lines of the operator rules compute, the
  instructions that occur in them are given their meaning on a machine with three of the
  registers, the zero flag, the carry flag and the stack of 64-bit words that
  \<^verbatim>\<open>push\<close> and \<^verbatim>\<open>pop\<close> work on (top first). \<^verbatim>\<open>sil\<close> is the low byte of
  \<^verbatim>\<open>rsi\<close>. In \<open>Cmp x y\<close> the register \<open>x\<close> is the left-hand operand and \<open>y\<close> the
  right-hand operand of \<^verbatim>\<open>cmp x, y\<close>: the flags are those of \<open>x - y\<close>, so the carry flag
  is set when \<open>x\<close> is below \<open>y\<close> as an unsigned number, and likewise for \<^verbatim>\<open>sub\<close>.
\<close>

datatype reg = RAX | RDI | RSI

datatype instr =
    Pop reg
  | Push reg
  | Xor reg reg
  | Cmp reg reg
  | Add reg reg
  | Sub reg reg
  | Sete_sil
  | Setne_sil

record machine =
  regs :: "reg \<Rightarrow> 64 word"
  zf :: bool
  cf :: bool
  stack :: "64 word list"

definition assemble :: "string \<Rightarrow> instr option" where
  "assemble line = map_of
     [(''pop rax'', Pop RAX), (''pop rdi'', Pop RDI),
      (''push rax'', Push RAX), (''push rsi'', Push RSI),
      (''xor rsi, rsi'', Xor RSI RSI), (''cmp rax, rdi'', Cmp RAX RDI),
      (''add rax, rdi'', Add RAX RDI), (''sub rax, rdi'', Sub RAX RDI),
      (''sete sil'', Sete_sil), (''setne sil'', Setne_sil)] line"

definition set_low_byte :: "64 word \<Rightarrow> 64 word \<Rightarrow> 64 word" where
  "set_low_byte w b = or (and w (not 255)) (and b 255)"

fun exec :: "instr \<Rightarrow> machine \<Rightarrow> machine option" where
  "exec (Pop r) m =
     (case stack m of
        [] \<Rightarrow> None
      | v # st \<Rightarrow> Some (m\<lparr>regs := (regs m)(r := v), stack := st\<rparr>))"
| "exec (Push r) m = Some (m\<lparr>stack := regs m r # stack m\<rparr>)"
| "exec (Xor d s) m =
     Some (m\<lparr>regs := (regs m)(d := xor (regs m d) (regs m s)),
             zf := (xor (regs m d) (regs m s) = 0), cf := False\<rparr>)"
| "exec (Cmp a b) m =
     Some (m\<lparr>zf := (regs m a - regs m b = 0), cf := (regs m a < regs m b)\<rparr>)"
| "exec (Add d s) m =
     Some (m\<lparr>regs := (regs m)(d := regs m d + regs m s), zf := (regs m d + regs m s = 0),
             cf := (regs m d + regs m s < regs m d)\<rparr>)"
| "exec (Sub d s) m =
     Some (m\<lparr>regs := (regs m)(d := regs m d - regs m s), zf := (regs m d - regs m s = 0),
             cf := (regs m d < regs m s)\<rparr>)"
| "exec Sete_sil m =
     Some (m\<lparr>regs := (regs m)(RSI := set_low_byte (regs m RSI) (if zf m then 1 else 0))\<rparr>)"
| "exec Setne_sil m =
     Some (m\<lparr>regs := (regs m)(RSI := set_low_byte (regs m RSI) (if zf m then 0 else 1))\<rparr>)"

text \<open>Running emitted lines in order; a line outside the table above stops the model.\<close>

fun run :: "string list \<Rightarrow> machine \<Rightarrow> machine option" where
  "run [] m = Some m"
| "run (l # ls) m =
     (case assemble l of
        None \<Rightarrow> None
      | Some i \<Rightarrow> (case exec i m of None \<Rightarrow> None | Some m' \<Rightarrow> run ls m'))"

section \<open>Properties of the generator\<close>

subsection \<open>String data\<close>

lemma str_nat_not_Nil: "str_nat n \<noteq> []"
  by (subst str_nat.simps) simp

lemma asm_str_loop_started:
  "3 < length acc \<Longrightarrow>
   asm_str_loop acc cs = acc @ concat (map (\<lambda>c. '', '' @ str_nat (of_char c)) cs)"
proof (induction cs arbitrary: acc)
  case Nil
  show ?case by simp
next
  case (Cons c cs)
  from Cons.prems have ne: "acc \<noteq> ''db ''" by auto
  have "3 < length (acc @ '', '' @ str_nat (of_char c))"
    using Cons.prems by simp
  from Cons.IH [OF this] ne show ?case by simp
qed

lemma join_Cons: "join sep (x # xs) = x @ concat (map (\<lambda>y. sep @ y) xs)"
  by (induction xs arbitrary: x) simp_all

lemma asm_str_loop_join:
  assumes "cs \<noteq> []"
  shows "asm_str_loop ''db '' cs = ''db '' @ join '', '' (map (\<lambda>c. str_nat (of_char c)) cs)"
proof -
  from assms obtain c cs' where cs: "cs = c # cs'" by (cases cs) auto
  have "0 < length (str_nat (of_char c))"
    using str_nat_not_Nil [of "of_char c"] by simp
  then have "3 < length (''db '' @ str_nat (of_char c))" by simp
  from asm_str_loop_started [OF this] show ?thesis
    unfolding cs by (simp add: join_Cons comp_def)
qed

lemma endswith_nul: "endswith s [CHR 0x00] = (s \<noteq> [] \<and> last s = CHR 0x00)"
proof (cases s rule: rev_cases)
  case Nil
  then show ?thesis by (simp add: endswith_def)
next
  case (snoc ys y)
  then show ?thesis by (simp add: endswith_def)
qed

lemma asm_str_eq:
  "asm_str s = ''db '' @ join '', '' (map (\<lambda>c. str_nat (of_char c))
      (if s \<noteq> [] \<and> last s = CHR 0x00 then s else s @ [CHR 0x00]))"
  by (simp add: asm_str_def endswith_nul asm_str_loop_join)

text \<open>
  C5. A string token with text \<open>s\<close> yields exactly one line: \<^verbatim>\<open>db\<close> followed by the
  ordinals of the characters of \<open>s\<close>, separated by commas, where a zero is appended to
  \<open>s\<close> unless \<open>s\<close> already ends with the character of ordinal zero. The literal
  \<^verbatim>\<open>"AB"\<close> yields the one line \<^verbatim>\<open>db 65, 66, 0\<close>.
\<close>

theorem string_token_data_line:
  "compile_token (StringToken s) =
     ([''db '' @ join '', '' (map (\<lambda>c. str_nat (of_char c))
         (if s \<noteq> [] \<and> last s = CHR 0x00 then s else s @ [CHR 0x00]))], None)
   \<and> compile_token (StringToken ''AB'') = ([''db 65, 66, 0''], None)"
proof
  show "compile_token (StringToken s) =
     ([''db '' @ join '', '' (map (\<lambda>c. str_nat (of_char c))
         (if s \<noteq> [] \<and> last s = CHR 0x00 then s else s @ [CHR 0x00]))], None)"
    by (simp only: compile_token.simps asm_str_eq)
  show "compile_token (StringToken ''AB'') = ([''db 65, 66, 0''], None)"
    by code_simp
qed

subsection \<open>The register loops\<close>

lemma yield_regs_in_range:
  "list_all (\<lambda>i. i < length rs) idxs \<Longrightarrow>
   yield_regs fmt rs (idxs @ rest) =
     (map (\<lambda>i. fmt @ rs ! i) idxs @ fst (yield_regs fmt rs rest),
      snd (yield_regs fmt rs rest))"
  by (induction idxs) (simp_all add: case_prod_beta)

lemma upt_split:
  assumes "k < n"
  shows "[0 ..< n] = [0 ..< k] @ k # [Suc k ..< n]"
proof -
  have "[0 ..< k + (n - k)] = [0 ..< k] @ [k ..< k + (n - k)]"
    by (rule upt_add_eq_append) simp
  with assms show ?thesis by (simp add: upt_conv_Cons)
qed

lemma nth_upt_take: "n \<le> length rs \<Longrightarrow> map (\<lambda>i. rs ! i) [0 ..< n] = take n rs"
  by (simp add: list_eq_iff_nth_eq)

lemma yield_regs_all_in_range:
  assumes "list_all (\<lambda>i. i < length rs) idxs"
  shows "yield_regs fmt rs idxs = (map (\<lambda>r. fmt @ r) (map (\<lambda>i. rs ! i) idxs), None)"
  using yield_regs_in_range [OF assms, of fmt "[]"] by (simp add: comp_def)

lemma yield_regs_rev_range:
  assumes "n \<le> length rs"
  shows "yield_regs fmt rs (rev [0 ..< n]) = (map (\<lambda>r. fmt @ r) (rev (take n rs)), None)"
proof -
  have "list_all (\<lambda>i. i < length rs) (rev [0 ..< n])"
    using assms by (simp add: list_all_iff)
  from yield_regs_all_in_range [OF this]
  show ?thesis using assms by (simp add: rev_map [symmetric] nth_upt_take)
qed

lemma yield_regs_rev_range_overflow:
  assumes "length rs < n"
  shows "yield_regs fmt rs (rev [0 ..< n]) = ([], Some IndexError)"
proof -
  from assms obtain k where n: "n = Suc k" by (cases n) auto
  with assms show ?thesis by simp
qed

lemma yield_regs_range_overflow:
  assumes "length rs < n"
  shows "yield_regs fmt rs [0 ..< n] = (map (\<lambda>r. fmt @ r) rs, Some IndexError)"
proof -
  have "list_all (\<lambda>i. i < length rs) [0 ..< length rs]"
    by (simp add: list_all_iff)
  from yield_regs_in_range [OF this, of fmt "length rs # [Suc (length rs) ..< n]"]
  have "yield_regs fmt rs [0 ..< n] =
      (map (\<lambda>r. fmt @ r) (map (\<lambda>i. rs ! i) [0 ..< length rs]), Some IndexError)"
    unfolding upt_split [OF assms] by (simp add: comp_def)
  then show ?thesis by (simp only: map_nth)
qed

lemma yield_regs_error: "snd (yield_regs fmt rs idxs) = Some e \<Longrightarrow> e = IndexError"
  by (induction idxs) (auto split: if_splits prod.splits)

lemma and_then_error:
  "snd (and_then (yield_regs fmt rs idxs) later) = Some e \<Longrightarrow> e = IndexError"
  using yield_regs_error [of fmt rs idxs e]
  by (cases "yield_regs fmt rs idxs") (auto simp add: and_then_def split: option.splits)

lemma call_in_range:
  assumes "argc \<le> 6"
  shows "compile_token (FunctionToken ''call'' [StrV name, IntV argc]) =
     (map (\<lambda>r. ''pop '' @ r) (rev (take (nat argc) CALL_ARG_REGS))
        @ [''call '' @ name, ''push rax''], None)"
proof -
  have "nat argc \<le> length CALL_ARG_REGS"
    using assms by (simp add: CALL_ARG_REGS_def)
  from yield_regs_rev_range [OF this] show ?thesis
    by (simp add: compile_function_def py_range_def and_then_def)
qed

text \<open>
  C4, as amended. The token \<^verbatim>\<open>call(foo, 2)\<close> yields exactly the four lines
  \<^verbatim>\<open>pop rsi\<close>, \<^verbatim>\<open>pop rdi\<close>, \<^verbatim>\<open>call foo\<close>, \<^verbatim>\<open>push rax\<close>, in this order. For every
  name and every \<open>argc\<close> from 0 to 6, \<^verbatim>\<open>call(name, argc)\<close> yields one \<^verbatim>\<open>pop\<close> for each
  of the first \<open>argc\<close> call-argument registers, the last of them first (so the value popped
  last goes to the first register), then the call of the name and the push of
  \<^verbatim>\<open>rax\<close>, and raises nothing.
\<close>

theorem call_pops_in_reverse_register_order:
  "compile_token (FunctionToken ''call'' [StrV ''foo'', IntV 2]) =
     ([''pop rsi'', ''pop rdi'', ''call foo'', ''push rax''], None)
   \<and> (0 \<le> argc \<and> argc \<le> 6 \<longrightarrow>
        compile_token (FunctionToken ''call'' [StrV name, IntV argc]) =
          (map (\<lambda>r. ''pop '' @ r) (rev (take (nat argc) CALL_ARG_REGS))
             @ [''call '' @ name, ''push rax''], None))"
proof
  show "compile_token (FunctionToken ''call'' [StrV ''foo'', IntV 2]) =
     ([''pop rsi'', ''pop rdi'', ''call foo'', ''push rax''], None)"
    by code_simp
  show "0 \<le> argc \<and> argc \<le> 6 \<longrightarrow>
        compile_token (FunctionToken ''call'' [StrV name, IntV argc]) =
          (map (\<lambda>r. ''pop '' @ r) (rev (take (nat argc) CALL_ARG_REGS))
             @ [''call '' @ name, ''push rax''], None)"
    using call_in_range [of argc name] by blast
qed

theorem call_pops_in_reverse_register_order_witness:
  "(0::int) \<le> 3 \<and> (3::int) \<le> 6
   \<and> compile_token (FunctionToken ''call'' [StrV ''bar'', IntV 3]) =
       ([''pop rdx'', ''pop rsi'', ''pop rdi'', ''call bar'', ''push rax''], None)"
  using call_pops_in_reverse_register_order [of 3 "''bar''"]
  by (simp add: CALL_ARG_REGS_def)

text \<open>
  C4 as it is written speaks of every \<open>argc\<close>. For \<^verbatim>\<open>call(foo, 7)\<close> no value is popped
  and \<^verbatim>\<open>foo\<close> is not called: the generator yields no line and ends with
  \<^verbatim>\<open>IndexError\<close>.
\<close>

theorem call_seven_arguments_yields_nothing:
  "compile_token (FunctionToken ''call'' [StrV ''foo'', IntV 7]) = ([], Some IndexError)"
  by code_simp

text \<open>
  C9. For an integer \<open>argc\<close> above 6, \<^verbatim>\<open>call(name, argc)\<close> ends with
  \<^verbatim>\<open>IndexError\<close> before any line; so does \<^verbatim>\<open>syscall(argc)\<close> for \<open>argc\<close> above 7;
  \<^verbatim>\<open>args(argc)\<close> for \<open>argc\<close> above 6 ends with \<^verbatim>\<open>IndexError\<close> after the pushes of
  the six call-argument registers. \<^verbatim>\<open>IndexError\<close> is not an \<^emph>\<open>InvalidConstructError\<close>.
\<close>

theorem register_lookup_out_of_range:
  "(6 < argc \<longrightarrow>
      compile_token (FunctionToken ''call'' [StrV name, IntV argc]) = ([], Some IndexError))
   \<and> (7 < argc \<longrightarrow>
      compile_token (FunctionToken ''syscall'' [IntV argc]) = ([], Some IndexError))
   \<and> (6 < argc \<longrightarrow>
      compile_token (FunctionToken ''args'' [IntV argc]) =
        (map (\<lambda>r. ''push '' @ r) CALL_ARG_REGS, Some IndexError))
   \<and> \<not> InvalidConstructError IndexError"
proof (intro conjI impI)
  assume "6 < argc"
  then have "length CALL_ARG_REGS < nat argc" by (simp add: CALL_ARG_REGS_def)
  from yield_regs_rev_range_overflow [OF this]
  show "compile_token (FunctionToken ''call'' [StrV name, IntV argc]) = ([], Some IndexError)"
    by (simp add: compile_function_def py_range_def and_then_def)
next
  assume "7 < argc"
  then have "length SYSCALL_ARG_REGS < nat argc" by (simp add: SYSCALL_ARG_REGS_def)
  from yield_regs_rev_range_overflow [OF this]
  show "compile_token (FunctionToken ''syscall'' [IntV argc]) = ([], Some IndexError)"
    by (simp add: compile_function_def py_range_def and_then_def)
next
  assume "6 < argc"
  then have "length CALL_ARG_REGS < nat argc" by (simp add: CALL_ARG_REGS_def)
  from yield_regs_range_overflow [OF this]
  show "compile_token (FunctionToken ''args'' [IntV argc]) =
        (map (\<lambda>r. ''push '' @ r) CALL_ARG_REGS, Some IndexError)"
    by (simp add: compile_function_def py_range_def)
next
  show "\<not> InvalidConstructError IndexError"
    by (simp add: InvalidConstructError_def)
qed

theorem register_lookup_out_of_range_witness:
  "(6::int) < 8 \<and> (7::int) < 8
   \<and> compile_token (FunctionToken ''call'' [StrV ''foo'', IntV 8]) = ([], Some IndexError)
   \<and> compile_token (FunctionToken ''syscall'' [IntV 8]) = ([], Some IndexError)
   \<and> compile_token (FunctionToken ''args'' [IntV 8]) =
        ([''push rdi'', ''push rsi'', ''push rdx'', ''push rcx'', ''push r8'', ''push r9''],
         Some IndexError)"
  using register_lookup_out_of_range [of 8 "''foo''"] by (simp add: CALL_ARG_REGS_def)

subsection \<open>The loop over the tokens\<close>

lemma compile_append_gen:
  "compile (ts1 @ ts2) =
     (case compile ts1 of
        (ls, Some e) \<Rightarrow> (ls, Some e)
      | (ls, None) \<Rightarrow> (ls @ fst (compile ts2), snd (compile ts2)))"
  by (induction ts1) (auto split: prod.splits option.splits)

lemma compile_lines:
  "snd (compile ts) = None \<Longrightarrow> fst (compile ts) = concat (map (\<lambda>tk. fst (compile_token tk)) ts)"
  by (induction ts) (auto split: prod.splits option.splits)

text \<open>
  C10. When compiling \<open>ts1\<close> and compiling \<open>ts2\<close> raise nothing, compiling \<open>ts1\<close>
  followed by \<open>ts2\<close> raises nothing and yields the lines of \<open>ts1\<close> followed by the lines
  of \<open>ts2\<close>.
\<close>

theorem compile_append:
  "compile ts1 = (ls1, None) \<Longrightarrow> compile ts2 = (ls2, None) \<Longrightarrow>
   compile (ts1 @ ts2) = (ls1 @ ls2, None)"
  by (simp add: compile_append_gen)

theorem compile_append_witness:
  "compile ([ValueToken None (IntV 5)] @ [ValueToken (Some ''$'') (IntV 3)]) =
     ([''push 5''] @ [''mov rax, [rsp + 24]'', ''push rax''], None)"
proof -
  have a: "compile [ValueToken None (IntV 5)] = ([''push 5''], None)"
    by code_simp
  have b: "compile [ValueToken (Some ''$'') (IntV 3)] =
      ([''mov rax, [rsp + 24]'', ''push rax''], None)"
    by code_simp
  show ?thesis by (rule compile_append [OF a b])
qed

text \<open>
  C8. Two runs of the generator on the same token sequence give the same lines and end
  the same way: the result is a function of the token sequence alone.
\<close>

theorem compile_deterministic:
  "compile ts = (ls1, e1) \<Longrightarrow> compile ts = (ls2, e2) \<Longrightarrow> ls1 = ls2 \<and> e1 = e2"
  by simp

theorem compile_deterministic_witness:
  "compile [ValueToken None (IntV 5), FunctionToken ''f'' []] =
     ([''push 5''], Some (Exception ''invalid function''))
   \<and> [''push 5''] = [''push 5''] \<and> Some (Exception ''invalid function'') = Some (Exception ''invalid function'')"
proof -
  have a: "compile [ValueToken None (IntV 5), FunctionToken ''f'' []] =
     ([''push 5''], Some (Exception ''invalid function''))"
    by code_simp
  from compile_deterministic [OF a a] a show ?thesis by (rule conjI [rotated])
qed

subsection \<open>Tokens without a rule\<close>

lemma in_dict_TYPES: "in_dict s TYPES = (s \<in> set width_names)"
  by (simp add: in_dict_def TYPES_def width_names_def)

lemma in_dict_CONDITIONAL_OPERATORS:
  "in_dict s CONDITIONAL_OPERATORS = (s \<in> set [''=='', ''!=''])"
  by (simp add: in_dict_def CONDITIONAL_OPERATORS_def)

lemma in_dict_SIMPLE_BINARY_OPERATORS:
  "in_dict s SIMPLE_BINARY_OPERATORS = (s \<in> set [''+'', ''-''])"
  by (simp add: in_dict_def SIMPLE_BINARY_OPERATORS_def)

lemma function_no_rule:
  "\<not> spec_function_rule name args \<Longrightarrow>
   compile_function name args = ([], Some (Exception ''invalid function''))"
proof (induction name args rule: spec_function_rule.induct)
  case (1 name)
  then show ?case by (simp add: compile_function_def)
next
  case (2 name s)
  then show ?case by (simp add: compile_function_def)
next
  case (3 name n)
  then show ?case by (simp add: compile_function_def)
next
  case (4 name s v vs)
  then show ?case by (auto simp add: compile_function_def in_dict_TYPES)
next
  case (5 name n v vs)
  then show ?case by (simp add: compile_function_def)
qed

lemma str_value_no_rule:
  "\<not> spec_value_rule prefix (StrV s) \<Longrightarrow>
   compile_str_value prefix s = ([], Some (Exception ''invalid string value''))"
  by (cases prefix)
     (auto simp add: compile_str_value_def in_dict_TYPES
        in_dict_CONDITIONAL_OPERATORS in_dict_SIMPLE_BINARY_OPERATORS)

lemma int_value_no_rule:
  "\<not> spec_value_rule prefix (IntV n) \<Longrightarrow>
   compile_int_value prefix n = ([], Some (Exception ''invalid integer value''))"
  by (cases prefix) (auto simp add: compile_int_value_def)

lemma token_no_rule:
  assumes "\<not> spec_matches_rule tk"
  shows "\<exists>e. InvalidConstructError e \<and> compile_token tk = ([], Some e)"
proof (cases tk)
  case (FunctionToken name args)
  with assms function_no_rule [of name args] show ?thesis
    by (simp add: InvalidConstructError_def)
next
  case (ValueToken prefix v)
  with assms str_value_no_rule [of prefix] int_value_no_rule [of prefix] show ?thesis
    by (cases v) (simp_all add: InvalidConstructError_def)
next
  case (StringToken s)
  with assms show ?thesis by simp
qed

text \<open>
  Conversely, a token with a rule never ends the generator with an
  \<^emph>\<open>InvalidConstructError\<close>: the only exception left is the \<^verbatim>\<open>IndexError\<close> of the
  register loops.
\<close>

lemma function_rule_error:
  "spec_function_rule name args \<Longrightarrow> snd (compile_function name args) = Some e \<Longrightarrow> e = IndexError"
proof (induction name args rule: spec_function_rule.induct)
  case (1 name)
  then show ?case by (simp add: compile_function_def)
next
  case (2 name s)
  then show ?case by (auto simp add: compile_function_def)
next
  case (3 name n)
  then show ?case
    by (auto simp add: compile_function_def dest: and_then_error yield_regs_error)
next
  case (4 name s v vs)
  then show ?case
    by (auto simp add: compile_function_def in_dict_TYPES dest: and_then_error split: if_splits)
next
  case (5 name n v vs)
  then show ?case by simp
qed

lemma value_rule_no_error:
  "spec_value_rule prefix v \<Longrightarrow> snd (compile_token (ValueToken prefix v)) = None"
  by (cases prefix; cases v)
     (auto simp add: compile_str_value_def compile_int_value_def in_dict_TYPES
        in_dict_CONDITIONAL_OPERATORS in_dict_SIMPLE_BINARY_OPERATORS)

lemma rule_token_error:
  assumes "spec_matches_rule tk" and "snd (compile_token tk) = Some e"
  shows "e = IndexError"
proof (cases tk)
  case (FunctionToken name args)
  with assms function_rule_error [of name args e] show ?thesis by simp
next
  case (ValueToken prefix v)
  with assms value_rule_no_error [of prefix v] show ?thesis by simp
next
  case (StringToken s)
  with assms show ?thesis by simp
qed

text \<open>
  C7. When the tokens \<open>ts\<close> compile to the lines \<open>ls\<close> without an exception and the next
  token \<open>tk\<close> matches no generation rule, the generator yields exactly \<open>ls\<close> and ends
  with an \<^emph>\<open>InvalidConstructError\<close>, whatever tokens follow \<open>tk\<close>.
\<close>

theorem unmatched_token_raises_invalid_construct:
  assumes "\<not> spec_matches_rule tk" and "compile ts = (ls, None)"
  shows "\<exists>e. InvalidConstructError e \<and> compile (ts @ tk # rest) = (ls, Some e)"
proof -
  from token_no_rule [OF assms(1)] obtain e
    where e: "InvalidConstructError e" "compile_token tk = ([], Some e)" by blast
  then have "compile (tk # rest) = ([], Some e)" by simp
  with assms(2) have "compile (ts @ tk # rest) = (ls, Some e)"
    by (simp add: compile_append_gen)
  with e(1) show ?thesis by blast
qed

theorem unmatched_token_raises_invalid_construct_witness:
  "\<not> spec_matches_rule (FunctionToken ''data'' [StrV ''byte''])
   \<and> compile [ValueToken None (IntV 5)] = ([''push 5''], None)
   \<and> (\<exists>e. InvalidConstructError e \<and>
        compile ([ValueToken None (IntV 5)] @ FunctionToken ''data'' [StrV ''byte'']
                   # [ValueToken None (IntV 6)]) = ([''push 5''], Some e))"
proof -
  have a: "\<not> spec_matches_rule (FunctionToken ''data'' [StrV ''byte''])"
    by simp
  have b: "compile [ValueToken None (IntV 5)] = ([''push 5''], None)"
    by code_simp
  from a b unmatched_token_raises_invalid_construct [OF a b] show ?thesis
    by blast
qed

subsection \<open>What the operator lines compute\<close>

lemma eq_lines:
  "compile_token (ValueToken None (StrV ''=='')) =
     ([''pop rax'', ''pop rdi'', ''xor rsi, rsi'', ''cmp rax, rdi'', ''sete sil'',
       ''push rsi''], None)"
  by code_simp

lemma minus_lines:
  "compile_token (ValueToken None (StrV ''-'')) =
     ([''pop rax'', ''pop rdi'', ''sub rax, rdi'', ''push rax''], None)"
  by code_simp

lemma plus_lines:
  "compile_token (ValueToken None (StrV ''+'')) =
     ([''pop rax'', ''pop rdi'', ''add rax, rdi'', ''push rax''], None)"
  by code_simp

text \<open>
  In the three lemmas below \<open>a\<close> is the top of the stack, the value popped first, and
  \<open>b\<close> the value popped second.
\<close>

lemma run_eq_lines:
  assumes "stack m = a # b # st"
  shows "\<exists>m'. run [''pop rax'', ''pop rdi'', ''xor rsi, rsi'', ''cmp rax, rdi'',
                   ''sete sil'', ''push rsi''] m = Some m'
     \<and> stack m' = (if b = a then 1 else 0) # st"
  using assms by (auto simp add: assemble_def set_low_byte_def)

lemma run_minus_lines:
  assumes "stack m = a # b # st"
  shows "\<exists>m'. run [''pop rax'', ''pop rdi'', ''sub rax, rdi'', ''push rax''] m = Some m'
     \<and> stack m' = (a - b) # st"
  using assms by (simp add: assemble_def)

lemma run_plus_lines:
  assumes "stack m = a # b # st"
  shows "\<exists>m'. run [''pop rax'', ''pop rdi'', ''add rax, rdi'', ''push rax''] m = Some m'
     \<and> stack m' = (b + a) # st"
  using assms by (simp add: assemble_def)

lemma run_eq_operands:
  assumes "stack m = a # b # st"
  shows "\<exists>m1. run [''pop rax'', ''pop rdi'', ''xor rsi, rsi''] m = Some m1
     \<and> regs m1 RAX = a \<and> regs m1 RDI = b"
  using assms by (simp add: assemble_def)

lemma run_eq_flags:
  assumes "stack m = a # b # st"
  shows "\<exists>m2. run [''pop rax'', ''pop rdi'', ''xor rsi, rsi'', ''cmp rax, rdi''] m = Some m2
     \<and> zf m2 = (a = b) \<and> cf m2 = (a < b)"
  using assms by (simp add: assemble_def)

text \<open>
  C6, as amended. The bare token \<^verbatim>\<open>==\<close> yields exactly the six lines \<^verbatim>\<open>pop rax\<close>,
  \<^verbatim>\<open>pop rdi\<close>, \<^verbatim>\<open>xor rsi, rsi\<close>, \<^verbatim>\<open>cmp rax, rdi\<close>, \<^verbatim>\<open>sete sil\<close>, \<^verbatim>\<open>push rsi\<close>.
  Run on a stack with \<open>a\<close> on top of \<open>b\<close>: when the fourth line, the compare of
  \<^verbatim>\<open>rax\<close> with \<^verbatim>\<open>rdi\<close>, is reached, its left-hand operand \<^verbatim>\<open>rax\<close> holds the value
  popped first and its right-hand operand \<^verbatim>\<open>rdi\<close> the value popped second; the compare
  leaves the flags of first-popped minus second-popped (zero flag when they are equal,
  carry flag when first-popped is below second-popped); and the six lines replace the two
  values by the 64-bit word 1 when they are equal, and by 0 otherwise.
\<close>

theorem eq_token_pushes_flag:
  assumes "stack m = a # b # st"
  shows "compile_token (ValueToken None (StrV ''=='')) =
     ([''pop rax'', ''pop rdi'', ''xor rsi, rsi'', ''cmp rax, rdi'', ''sete sil'',
       ''push rsi''], None)
   \<and> assemble (fst (compile_token (ValueToken None (StrV ''==''))) ! 3) = Some (Cmp RAX RDI)
   \<and> (\<exists>m1. run (take 3 (fst (compile_token (ValueToken None (StrV ''==''))))) m = Some m1
          \<and> regs m1 RAX = a \<and> regs m1 RDI = b)
   \<and> (\<exists>m2. run (take 4 (fst (compile_token (ValueToken None (StrV ''==''))))) m = Some m2
          \<and> zf m2 = (a = b) \<and> cf m2 = (a < b))
   \<and> (\<exists>m'. run (fst (compile_token (ValueToken None (StrV ''=='')))) m = Some m'
          \<and> stack m' = (if b = a then 1 else 0) # st)"
proof (intro conjI)
  show "compile_token (ValueToken None (StrV ''=='')) =
     ([''pop rax'', ''pop rdi'', ''xor rsi, rsi'', ''cmp rax, rdi'', ''sete sil'',
       ''push rsi''], None)"
    by (rule eq_lines)
  show "assemble (fst (compile_token (ValueToken None (StrV ''==''))) ! 3) = Some (Cmp RAX RDI)"
    by (simp only: eq_lines fst_conv) (simp add: assemble_def)
  have three: "take 3 (fst (compile_token (ValueToken None (StrV ''=='')))) =
      [''pop rax'', ''pop rdi'', ''xor rsi, rsi'']"
    by (simp only: eq_lines fst_conv) simp
  have four: "take 4 (fst (compile_token (ValueToken None (StrV ''=='')))) =
      [''pop rax'', ''pop rdi'', ''xor rsi, rsi'', ''cmp rax, rdi'']"
    by (simp only: eq_lines fst_conv) simp
  show "\<exists>m1. run (take 3 (fst (compile_token (ValueToken None (StrV ''==''))))) m = Some m1
          \<and> regs m1 RAX = a \<and> regs m1 RDI = b"
    using run_eq_operands [OF assms] by (simp only: three)
  show "\<exists>m2. run (take 4 (fst (compile_token (ValueToken None (StrV ''==''))))) m = Some m2
          \<and> zf m2 = (a = b) \<and> cf m2 = (a < b)"
    using run_eq_flags [OF assms] by (simp only: four)
  show "\<exists>m'. run (fst (compile_token (ValueToken None (StrV ''=='')))) m = Some m'
          \<and> stack m' = (if b = a then 1 else 0) # st"
    using run_eq_lines [OF assms] by (simp only: eq_lines fst_conv)
qed

theorem eq_token_pushes_flag_witness:
  "stack \<lparr>regs = (\<lambda>r. 9), zf = False, cf = False, stack = [3, 5, 4]\<rparr> = 3 # 5 # [4]
   \<and> (compile_token (ValueToken None (StrV ''=='')) =
     ([''pop rax'', ''pop rdi'', ''xor rsi, rsi'', ''cmp rax, rdi'', ''sete sil'',
       ''push rsi''], None)
   \<and> assemble (fst (compile_token (ValueToken None (StrV ''==''))) ! 3) = Some (Cmp RAX RDI)
   \<and> (\<exists>m1. run (take 3 (fst (compile_token (ValueToken None (StrV ''==''))))) 
               \<lparr>regs = (\<lambda>r. 9), zf = False, cf = False, stack = [3, 5, 4]\<rparr> = Some m1
          \<and> regs m1 RAX = 3 \<and> regs m1 RDI = 5)
   \<and> (\<exists>m2. run (take 4 (fst (compile_token (ValueToken None (StrV ''==''))))) 
               \<lparr>regs = (\<lambda>r. 9), zf = False, cf = False, stack = [3, 5, 4]\<rparr> = Some m2
          \<and> zf m2 = ((3::64 word) = 5) \<and> cf m2 = ((3::64 word) < 5))
   \<and> (\<exists>m'. run (fst (compile_token (ValueToken None (StrV ''==''))))
               \<lparr>regs = (\<lambda>r. 9), zf = False, cf = False, stack = [3, 5, 4]\<rparr> = Some m'
          \<and> stack m' = (if (5::64 word) = 3 then 1 else 0) # [4]))"
proof -
  have a: "stack \<lparr>regs = (\<lambda>r. 9), zf = False, cf = False, stack = [3, 5, 4]\<rparr> = 3 # 5 # [4]"
    by simp
  from a eq_token_pushes_flag [OF a] show ?thesis by (rule conjI)
qed

text \<open>
  C6 as it is written has the value popped first as the right-hand operand of the compare
  and the value popped second as its left-hand operand. On the stack with 3 on top of 5
  the fourth line is \<^verbatim>\<open>cmp rax, rdi\<close> with the value popped first, 3, in its left-hand
  operand \<^verbatim>\<open>rax\<close> and the value popped second, 5, in its right-hand operand
  \<^verbatim>\<open>rdi\<close>; it sets the carry flag, as 3 is below 5, which a compare with 5 on the left
  and 3 on the right does not.
\<close>

theorem eq_token_compare_has_first_popped_on_the_left:
  "fst (compile_token (ValueToken None (StrV ''==''))) ! 3 = ''cmp rax, rdi''
   \<and> assemble ''cmp rax, rdi'' = Some (Cmp RAX RDI)
   \<and> map_option (\<lambda>m. (regs m RAX, regs m RDI, cf m))
        (run (take 4 (fst (compile_token (ValueToken None (StrV ''==''))))) 
           \<lparr>regs = (\<lambda>r. 0), zf = False, cf = False, stack = [3, 5]\<rparr>) = Some (3, 5, True)
   \<and> map_option cf
        (exec (Cmp RDI RAX) \<lparr>regs = (\<lambda>r. 0)(RAX := 3, RDI := 5), zf = False, cf = False,
           stack = []\<rparr>) = Some False"
  by (simp only: eq_lines fst_conv) (simp add: assemble_def)

text \<open>
  C2 on the text \<^verbatim>\<open>5 3 -\<close>. The bare token \<^verbatim>\<open>-\<close> yields \<^verbatim>\<open>pop rax\<close>,
  \<^verbatim>\<open>pop rdi\<close>, \<^verbatim>\<open>sub rax, rdi\<close>, \<^verbatim>\<open>push rax\<close>. On the stack with 3 on top of 5
  these lines leave the value popped first minus the value popped second, \<open>3 - 5\<close>, which
  is not the value popped second minus the value popped first, \<open>5 - 3\<close>.
\<close>

theorem minus_token_subtracts_second_from_first:
  "compile_token (ValueToken None (StrV ''-'')) =
     ([''pop rax'', ''pop rdi'', ''sub rax, rdi'', ''push rax''], None)
   \<and> map_option stack (run (fst (compile_token (ValueToken None (StrV ''-''))))
        \<lparr>regs = (\<lambda>r. 0), zf = False, cf = False, stack = [3, 5]\<rparr>) = Some [3 - 5]
   \<and> [3 - 5] \<noteq> [5 - 3 :: 64 word]"
  by (simp only: minus_lines fst_conv) (simp add: assemble_def)

section \<open>Properties of the scanner\<close>

subsection \<open>Classification of payloads and arguments\<close>

lemma of_char_digit_char: "d < 10 \<Longrightarrow> of_char (digit_char d) = 48 + d"
  by (simp add: digit_char_def)

lemma decimal_value_snoc:
  "decimal_value (s @ [c]) = 10 * decimal_value s + (int (of_char c) - 48)"
  by (simp add: decimal_value_def)

lemma decimal_value_str_nat: "decimal_value (str_nat n) = int n"
proof (induction n rule: str_nat.induct)
  case (1 n)
  show ?case
  proof (cases "n < 10")
    case True
    then show ?thesis
      by (subst str_nat.simps) (simp add: decimal_value_def of_char_digit_char)
  next
    case False
    with "1.IH" have "decimal_value (str_nat (n div 10)) = int (n div 10)" by simp
    with False show ?thesis
      by (subst str_nat.simps)
         (simp add: decimal_value_snoc of_char_digit_char zdiv_int zmod_int)
  qed
qed

lemma is_decimal_digit_char: "d < 10 \<Longrightarrow> is_decimal (digit_char d)"
  by (simp add: is_decimal_def of_char_digit_char)

lemma str_nat_decimal: "list_all is_decimal (str_nat n)"
proof (induction n rule: str_nat.induct)
  case (1 n)
  show ?case
  proof (cases "n < 10")
    case True
    then show ?thesis by (subst str_nat.simps) (simp add: is_decimal_digit_char)
  next
    case False
    with "1.IH" have "list_all is_decimal (str_nat (n div 10))" by simp
    with False show ?thesis by (subst str_nat.simps) (simp add: is_decimal_digit_char)
  qed
qed

lemma classify_payload:
  assumes "list_all (\<lambda>c. is_decimal c \<or> \<not> is_digit c) s"
  shows "classify s =
    (if s \<noteq> [] \<and> list_all is_decimal s then Inr (IntV (decimal_value s)) else Inr (StrV s))"
proof (cases "s \<noteq> [] \<and> list_all is_decimal s")
  case True
  then have "isdigit s" by (auto simp add: isdigit_def is_digit_def list_all_iff)
  with True show ?thesis by (simp add: classify_def)
next
  case False
  have "\<not> isdigit s"
  proof
    assume "isdigit s"
    with assms have "s \<noteq> [] \<and> list_all is_decimal s"
      by (auto simp add: isdigit_def list_all_iff)
    with False show False by simp
  qed
  with False show ?thesis by (simp add: classify_def)
qed

lemma classify_str_nat: "classify (str_nat n) = Inr (IntV (int n))"
proof -
  have "isdigit (str_nat n)"
    using str_nat_decimal [of n] str_nat_not_Nil [of n]
    by (auto simp add: isdigit_def is_digit_def list_all_iff)
  then show ?thesis
    by (simp add: classify_def str_nat_decimal decimal_value_str_nat)
qed

lemma scan_classifies_both:
  "scan ''042 x1 f(7,a 5)'' =
     Some ([ValueToken None (IntV 42), ValueToken None (StrV ''x1''),
            FunctionToken ''f'' [IntV 7, StrV ''a 5'']], None)"
  by code_simp

text \<open>
  C3 on the one-character text U+00B2 (superscript two), bare and as the argument of a
  function: \<^verbatim>\<open>isdigit\<close> holds for it, \<^verbatim>\<open>int\<close> rejects it, and the scanner ends
  with \<^verbatim>\<open>ValueError\<close> without a token, where the claim has an identifier.
\<close>

theorem scan_superscript_digit_raises:
  "scan [CHR 0xB2] = Some ([], Some ValueError)
   \<and> scan (''f('' @ [CHR 0xB2] @ '')'') = Some ([], Some ValueError)"
  by code_simp

subsection \<open>The argument loop at the end of the input\<close>

lemma classify_Nil: "classify [] = Inr (StrV [])"
  by (simp add: classify_def isdigit_def)

lemma classify_error: "classify s = Inl e \<Longrightarrow> e = ValueError"
  by (simp add: classify_def split: if_splits)

lemma scan_args_returns_nonempty:
  assumes "scan_args cs args = Some y"
  shows "cs \<noteq> []"
proof (rule scan_args.raw_induct [where P = "\<lambda>cs args y. cs \<noteq> []", OF _ assms])
  fix f :: "string \<Rightarrow> pyval list \<Rightarrow> (error + pyval list \<times> string) option"
    and cs args y
  assume IH: "\<And>cs args y. f cs args = Some y \<Longrightarrow> cs \<noteq> []"
    and body: "(let cs1 = dropWhile isspace cs in
      if take 1 cs1 = '')'' then Some (Inr (args, cs1))
      else
        let arg = takeWhile arg_char cs1;
            cs2 = dropWhile arg_char cs1;
            cs3 = (if take 1 cs2 = '','' then drop 1 cs2 else cs2)
        in (case classify arg of
              Inl e \<Rightarrow> Some (Inl e)
            | Inr v \<Rightarrow> f cs3 (args @ [v]))) = Some y"
  show "cs \<noteq> []"
  proof
    assume "cs = []"
    with body have "f [] (args @ [StrV []]) = Some y"
      by (simp add: classify_Nil)
    from IH [OF this] show False by simp
  qed
qed

lemma scan_args_eof: "scan_args [] args = None"
  using scan_args_returns_nonempty [of "[]" args] by (cases "scan_args [] args") auto

lemma scan_args_result:
  assumes "scan_args cs args = Some y"
  shows "case y of Inl e \<Rightarrow> e = ValueError
         | Inr (a, r) \<Rightarrow> take 1 r = '')'' \<and> CHR '')'' \<in> set cs"
proof (rule scan_args.raw_induct [where P = "\<lambda>cs args y. case y of Inl e \<Rightarrow> e = ValueError
         | Inr (a, r) \<Rightarrow> take 1 r = '')'' \<and> CHR '')'' \<in> set cs", OF _ assms])
  fix f :: "string \<Rightarrow> pyval list \<Rightarrow> (error + pyval list \<times> string) option"
    and cs args y
  assume IH: "\<And>cs args y. f cs args = Some y \<Longrightarrow> (case y of Inl e \<Rightarrow> e = ValueError
         | Inr (a, r) \<Rightarrow> take 1 r = '')'' \<and> CHR '')'' \<in> set cs)"
    and body: "(let cs1 = dropWhile isspace cs in
      if take 1 cs1 = '')'' then Some (Inr (args, cs1))
      else
        let arg = takeWhile arg_char cs1;
            cs2 = dropWhile arg_char cs1;
            cs3 = (if take 1 cs2 = '','' then drop 1 cs2 else cs2)
        in (case classify arg of
              Inl e \<Rightarrow> Some (Inl e)
            | Inr v \<Rightarrow> f cs3 (args @ [v]))) = Some y"
  let ?cs1 = "dropWhile isspace cs"
  let ?cs2 = "dropWhile arg_char ?cs1"
  let ?cs3 = "if take 1 ?cs2 = '','' then drop 1 ?cs2 else ?cs2"
  have sub1: "set ?cs1 \<subseteq> set cs"
    using set_dropWhileD by fast
  have "set ?cs3 \<subseteq> set ?cs2"
    using in_set_dropD [of _ 1 ?cs2] by auto
  also have "\<dots> \<subseteq> set ?cs1" using set_dropWhileD by fast
  finally have sub: "set ?cs3 \<subseteq> set cs" using sub1 by simp
  show "case y of Inl e \<Rightarrow> e = ValueError
         | Inr (a, r) \<Rightarrow> take 1 r = '')'' \<and> CHR '')'' \<in> set cs"
  proof (cases "take 1 ?cs1 = '')''")
    case True
    then have "CHR '')'' \<in> set ?cs1" by (cases ?cs1) auto
    with sub1 have "CHR '')'' \<in> set cs" by blast
    with True body show ?thesis by (auto simp add: Let_def)
  next
    case False
    show ?thesis
    proof (cases "classify (takeWhile arg_char ?cs1)")
      case (Inl e)
      with False body classify_error [OF Inl] show ?thesis by (auto simp add: Let_def)
    next
      case (Inr v)
      with False body have "f ?cs3 (args @ [v]) = Some y" by (simp add: Let_def)
      from IH [OF this] sub show ?thesis by (auto split: sum.splits)
    qed
  qed
qed

lemma scan_args_returns_at_close:
  "scan_args cs args = Some (Inr (args', cs')) \<Longrightarrow> cs' \<noteq> []"
  using scan_args_result [of cs args "Inr (args', cs')"] by auto

lemma scan_args_error:
  "scan_args cs args = Some (Inl e) \<Longrightarrow> e = ValueError"
  using scan_args_result [of cs args "Inl e"] by simp

lemma scan_args_unclosed:
  assumes "CHR '')'' \<notin> set cs"
  shows "scan_args cs args = None \<or> scan_args cs args = Some (Inl ValueError)"
proof (cases "scan_args cs args")
  case None
  then show ?thesis by simp
next
  case (Some y)
  from scan_args_result [OF Some] assms Some show ?thesis
    by (cases y) auto
qed

lemma scan_loop_never_unclosed_function:
  assumes "scan_loop cs = Some y"
  shows "snd y \<noteq> Some (Exception ''unclosed function'')"
proof (rule scan_loop.raw_induct
    [where P = "\<lambda>cs y. snd y \<noteq> Some (Exception ''unclosed function'')", OF _ assms])
  fix f :: "string \<Rightarrow> scanned" and cs y
  assume IH: "\<And>cs y. f cs = Some y \<Longrightarrow> snd y \<noteq> Some (Exception ''unclosed function'')"
    and body: "(if cs = [] then Some ([], None)
      else if isspace (hd cs) then f (tl cs)
      else if hd cs = CHR '';'' then
        f (drop 1 (dropWhile (\<lambda>c. c \<noteq> CHR 0x0A) cs))
      else if hd cs = CHR 0x22 then
        (let v = takeWhile (\<lambda>c. c \<noteq> CHR 0x22) (tl cs);
             cs1 = dropWhile (\<lambda>c. c \<noteq> CHR 0x22) (tl cs)
         in if cs1 = [] then Some ([], Some (Exception ''unclosed string''))
            else Option.bind (f (tl cs1)) (\<lambda>(tks, e). Some (StringToken v # tks, e)))
      else
        (let prefix = (if [hd cs] \<in> set PREFIXES then Some [hd cs] else None);
             cs1 = (if [hd cs] \<in> set PREFIXES then tl cs else cs);
             v = takeWhile value_char cs1;
             cs2 = dropWhile value_char cs1
         in if take 1 cs2 \<noteq> ''('' then
              (case classify v of
                 Inl e \<Rightarrow> Some ([], Some e)
               | Inr pv \<Rightarrow>
                   Option.bind (f cs2) (\<lambda>(tks, e). Some (ValueToken prefix pv # tks, e)))
            else if prefix \<noteq> None then
              Some ([], Some (Exception ''functions cannot be prefixed''))
            else
              (case scan_args (tl cs2) [] of
                 None \<Rightarrow> None
               | Some (Inl e) \<Rightarrow> Some ([], Some e)
               | Some (Inr (args, cs3)) \<Rightarrow>
                   if cs3 = [] then Some ([], Some (Exception ''unclosed function''))
                   else Option.bind (f (tl cs3))
                          (\<lambda>(tks, e). Some (FunctionToken v args # tks, e))))) = Some y"
  have yielded: "snd y \<noteq> Some (Exception ''unclosed function'')"
    if "Option.bind (f r) (\<lambda>(tks, e). Some (tk # tks, e)) = Some y" for r tk
  proof -
    from that obtain tks e where "f r = Some (tks, e)" and "y = (tk # tks, e)"
      by (auto simp add: bind_eq_Some_conv)
    with IH [of r "(tks, e)"] show ?thesis by simp
  qed
  show "snd y \<noteq> Some (Exception ''unclosed function'')"
  proof (cases "cs = [] \<or> isspace (hd cs) \<or> hd cs = CHR '';'' \<or> hd cs = CHR 0x22")
    case True
    show ?thesis
    proof (cases "cs = []")
      case True
      with body show ?thesis by auto
    next
      case ne: False
      show ?thesis
      proof (cases "isspace (hd cs)")
        case True
        with ne body have "f (tl cs) = Some y" by simp
        then show ?thesis by (rule IH)
      next
        case ns: False
        show ?thesis
        proof (cases "hd cs = CHR '';''")
          case True
          with ne ns body have "f (drop 1 (dropWhile (\<lambda>c. c \<noteq> CHR 0x0A) cs)) = Some y"
            by simp
          then show ?thesis by (rule IH)
        next
          case nc: False
          with True ne ns have q: "hd cs = CHR 0x22" by simp
          show ?thesis
          proof (cases "dropWhile (\<lambda>c. c \<noteq> CHR 0x22) (tl cs) = []")
            case True
            with ne ns nc q body have "y = ([], Some (Exception ''unclosed string''))"
              by (simp add: Let_def)
            then show ?thesis by simp
          next
            case False
            with ne ns nc q body have
              "Option.bind (f (tl (dropWhile (\<lambda>c. c \<noteq> CHR 0x22) (tl cs))))
                 (\<lambda>(tks, e). Some (StringToken (takeWhile (\<lambda>c. c \<noteq> CHR 0x22) (tl cs)) # tks, e)) = Some y"
              by (auto simp add: Let_def split: if_splits)
            then show ?thesis by (rule yielded)
          qed
        qed
      qed
    qed
  next
    case False
    define prefix where "prefix = (if [hd cs] \<in> set PREFIXES then Some [hd cs] else None)"
    define cs1 where "cs1 = (if [hd cs] \<in> set PREFIXES then tl cs else cs)"
    define v where "v = takeWhile value_char cs1"
    define cs2 where "cs2 = dropWhile value_char cs1"
    from False have ne: "cs \<noteq> []" and ns: "\<not> isspace (hd cs)"
      and nc: "hd cs \<noteq> CHR '';''" and nq: "hd cs \<noteq> CHR 0x22"
      by auto
    from body have body':
      "(if take 1 cs2 \<noteq> ''('' then
              (case classify v of
                 Inl e \<Rightarrow> Some ([], Some e)
               | Inr pv \<Rightarrow>
                   Option.bind (f cs2) (\<lambda>(tks, e). Some (ValueToken prefix pv # tks, e)))
            else if prefix \<noteq> None then
              Some ([], Some (Exception ''functions cannot be prefixed''))
            else
              (case scan_args (tl cs2) [] of
                 None \<Rightarrow> None
               | Some (Inl e) \<Rightarrow> Some ([], Some e)
               | Some (Inr (args, cs3)) \<Rightarrow>
                   if cs3 = [] then Some ([], Some (Exception ''unclosed function''))
                   else Option.bind (f (tl cs3))
                          (\<lambda>(tks, e). Some (FunctionToken v args # tks, e)))) = Some y"
      unfolding prefix_def cs1_def v_def cs2_def Let_def
        if_not_P [OF ne] if_not_P [OF ns] if_not_P [OF nc] if_not_P [OF nq] .
    show ?thesis
    proof (cases "take 1 cs2 \<noteq> ''(''")
      case True
      show ?thesis
      proof (cases "classify v")
        case (Inl e)
        with True body' classify_error [OF Inl] show ?thesis by auto
      next
        case (Inr pv)
        with True body' have
          "Option.bind (f cs2) (\<lambda>(tks, e). Some (ValueToken prefix pv # tks, e)) = Some y"
          by simp
        then show ?thesis by (rule yielded)
      qed
    next
      case not_value: False
      show ?thesis
      proof (cases "prefix \<noteq> None")
        case True
        with not_value body' show ?thesis by auto
      next
        case no_prefix: False
        from not_value no_prefix body' have call:
          "(case scan_args (tl cs2) [] of
                 None \<Rightarrow> None
               | Some (Inl e) \<Rightarrow> Some ([], Some e)
               | Some (Inr (args, cs3)) \<Rightarrow>
                   if cs3 = [] then Some ([], Some (Exception ''unclosed function''))
                   else Option.bind (f (tl cs3))
                          (\<lambda>(tks, e). Some (FunctionToken v args # tks, e))) = Some y"
          by simp
        then obtain r where r: "scan_args (tl cs2) [] = Some r"
          by (cases "scan_args (tl cs2) []") auto
        show ?thesis
        proof (cases r)
          case (Inl e)
          with r call scan_args_error [of "tl cs2" "[]" e] show ?thesis by auto
        next
          case (Inr p)
          obtain args cs3 where p: "p = (args, cs3)" by (cases p)
          with Inr r scan_args_returns_at_close [of "tl cs2" "[]" args cs3]
          have "cs3 \<noteq> []" by simp
          with p Inr r call have
            "Option.bind (f (tl cs3)) (\<lambda>(tks, e). Some (FunctionToken v args # tks, e)) = Some y"
            by simp
          then show ?thesis by (rule yielded)
        qed
      qed
    qed
  qed
qed

text \<open>
  C1 on the text \<^verbatim>\<open>f(\<close>: the input ends inside the argument list, and the scanner
  does not return (it appends empty arguments forever) where the claim has
  \<^emph>\<open>UnterminatedFunctionError\<close>. No input at all makes the scanner raise the exception
  \<^verbatim>\<open>unclosed function\<close>.
\<close>

theorem scan_unclosed_function_never_returns:
  "scan ''f('' = None
   \<and> (\<forall>input tks. scan input \<noteq> Some (tks, Some (Exception ''unclosed function'')))"
proof
  show "scan ''f('' = None"
    unfolding scan_def
    by (subst scan_loop.simps)
       (simp add: isspace_def PREFIXES_def value_char_def scan_args_eof)
  show "\<forall>input tks. scan input \<noteq> Some (tks, Some (Exception ''unclosed function''))"
    using scan_loop_never_unclosed_function by (fastforce simp add: scan_def)
qed

end
